theory Spec2Isabelle
  imports Main "HOL-Library.Word"
begin

unbundle bit_operations_syntax

section \<open>Data model\<close>

text \<open>A byte is \<^verbatim>\<open>uint8_t\<close>; a file's contents are a list of bytes.\<close>

type_synonym byte = "8 word"

text \<open>\<^verbatim>\<open>enum class Instruction { LEFT, RIGHT }\<close>\<close>

datatype Instruction = LEFT | RIGHT

text \<open>
  The only way the program can leave defined behaviour inside \<^verbatim>\<open>rotate\<close>: the loop
  counter is an \<^verbatim>\<open>int\<close>, and incrementing it past \<^verbatim>\<open>INT_MAX\<close> is undefined in C++.
  The program is written for Linux (it includes \<^verbatim>\<open><linux/limits.h>\<close>), where \<^verbatim>\<open>int\<close> has
  32 bits.
\<close>

datatype error = Signed_overflow

definition INT_MAX :: int where
  "INT_MAX = 2147483647"

section \<open>The input and output streams\<close>

text \<open>
  \<^verbatim>\<open>std::ifstream\<close> opened in binary mode, as far as \<^verbatim>\<open>rotate\<close> and \<^verbatim>\<open>main\<close> use it:
  the bytes of the file, the get position, and the two state flags that reading and
  seeking can raise. The operations follow the C++ standard's description of the
  unformatted input functions: each one first builds a sentry, which raises
  \<^verbatim>\<open>failbit\<close> and makes the operation do nothing when the stream is not good.
\<close>

record ifstream =
  data :: "byte list"
  gpos :: nat
  eofbit :: bool
  failbit :: bool

definition ifstream_open :: "byte list \<Rightarrow> ifstream" where
  "ifstream_open bs = \<lparr>data = bs, gpos = 0, eofbit = False, failbit = False\<rparr>"

definition good :: "ifstream \<Rightarrow> bool" where
  "good s = (\<not> eofbit s \<and> \<not> failbit s)"

definition eof :: "ifstream \<Rightarrow> bool" where
  "eof s = eofbit s"

definition sentry :: "ifstream \<Rightarrow> bool \<times> ifstream" where
  "sentry s = (if good s then (True, s) else (False, s\<lparr>failbit := True\<rparr>))"

text \<open>\<^verbatim>\<open>Traits::eof()\<close>, the value \<^verbatim>\<open>peek\<close> and \<^verbatim>\<open>get\<close> return when there is no character.\<close>

definition EOF :: int where
  "EOF = - 1"

text \<open>\<^verbatim>\<open>tellg()\<close>: the get position, or \<^verbatim>\<open>-1\<close> on a failed stream.\<close>

definition tellg :: "ifstream \<Rightarrow> int \<times> ifstream" where
  "tellg s =
     (case sentry s of
        (ok, s1) \<Rightarrow> (if ok \<and> \<not> failbit s1 then int (gpos s1) else - 1, s1))"

text \<open>
  \<^verbatim>\<open>seekg(off, std::ios_base::end)\<close>: clears \<^verbatim>\<open>eofbit\<close>, then moves to \<^verbatim>\<open>off\<close> from the
  end of the file; a position before the start of the file is refused with \<^verbatim>\<open>failbit\<close>.
\<close>

definition seekg_end :: "int \<Rightarrow> ifstream \<Rightarrow> ifstream" where
  "seekg_end off s =
     (case sentry (s\<lparr>eofbit := False\<rparr>) of
        (ok, s1) \<Rightarrow>
          if ok \<and> \<not> failbit s1 then
            (let p = int (length (data s1)) + off
             in if p < 0 then s1\<lparr>failbit := True\<rparr> else s1\<lparr>gpos := nat p\<rparr>)
          else s1)"

text \<open>\<^verbatim>\<open>seekg(pos)\<close>: the same with an absolute position.\<close>

definition seekg :: "int \<Rightarrow> ifstream \<Rightarrow> ifstream" where
  "seekg p s =
     (case sentry (s\<lparr>eofbit := False\<rparr>) of
        (ok, s1) \<Rightarrow>
          if ok \<and> \<not> failbit s1 then
            (if p < 0 then s1\<lparr>failbit := True\<rparr> else s1\<lparr>gpos := nat p\<rparr>)
          else s1)"

text \<open>
  \<^verbatim>\<open>peek()\<close>: the next byte as a value in \<open>0..255\<close> without consuming it; at the end of
  the file it raises \<^verbatim>\<open>eofbit\<close> and returns \<^verbatim>\<open>EOF\<close>.
\<close>

definition peek :: "ifstream \<Rightarrow> int \<times> ifstream" where
  "peek s =
     (case sentry s of
        (ok, s1) \<Rightarrow>
          if ok then
            (if gpos s1 < length (data s1) then (uint (data s1 ! gpos s1), s1)
             else (EOF, s1\<lparr>eofbit := True\<rparr>))
          else (EOF, s1))"

text \<open>
  \<^verbatim>\<open>get()\<close>: consumes the next byte; when there is none it raises \<^verbatim>\<open>eofbit\<close> and
  \<^verbatim>\<open>failbit\<close> and returns \<^verbatim>\<open>EOF\<close>.
\<close>

definition get :: "ifstream \<Rightarrow> int \<times> ifstream" where
  "get s =
     (case sentry s of
        (ok, s1) \<Rightarrow>
          if ok then
            (if gpos s1 < length (data s1)
             then (uint (data s1 ! gpos s1), s1\<lparr>gpos := Suc (gpos s1)\<rparr>)
             else (EOF, s1\<lparr>eofbit := True, failbit := True\<rparr>))
          else (EOF, s1))"

text \<open>
  \<^verbatim>\<open>std::ofstream\<close>: the bytes written so far; \<^verbatim>\<open>put\<close> appends one. Write errors of
  the device are outside the model.
\<close>

type_synonym ofstream = "byte list"

definition put :: "byte \<Rightarrow> ofstream \<Rightarrow> ofstream" where
  "put c out = out @ [c]"

text \<open>The conversion of the \<^verbatim>\<open>int\<close> returned by \<^verbatim>\<open>peek\<close> or \<^verbatim>\<open>get\<close> to \<^verbatim>\<open>uint8_t\<close>.\<close>

definition to_uint8 :: "int \<Rightarrow> byte" where
  "to_uint8 k = word_of_int k"

section \<open>rotate\<close>

text \<open>
  The loop of the \<^verbatim>\<open>LEFT\<close> branch (lines 106 to 122). The counter \<open>i\<close> is the \<^verbatim>\<open>int i\<close>
  of the source; \<^verbatim>\<open>i+1\<close> in the test of line 114 is computed in \<^verbatim>\<open>int\<close> and overflows
  when \<open>i = INT_MAX\<close>.
\<close>

function rotate_left_loop ::
  "int \<Rightarrow> byte \<Rightarrow> int \<Rightarrow> ifstream \<Rightarrow> ofstream \<Rightarrow> error + (ifstream \<times> ofstream)" where
  "rotate_left_loop end_position first_bit i inp out =
     (if i < end_position then
        (case get inp of
           (c, inp1) \<Rightarrow>
             let character = word_rotl 1 (to_uint8 c)
             in if i = INT_MAX then Inl Signed_overflow
                else
                  (case (if i + 1 < end_position
                         then (case peek inp1 of (p, inp2) \<Rightarrow> (to_uint8 p AND 0xA0, inp2))
                         else (first_bit, inp1)) of
                     (peeked_bit, inp3) \<Rightarrow>
                       let character' = (0xFE AND character) OR (0x01 AND word_rotr 7 peeked_bit)
                       in rotate_left_loop end_position first_bit (i + 1) inp3
                            (put character' out)))
      else Inr (inp, out))"
  by pat_completeness auto
termination
  by (relation "measure (\<lambda>(e, f, i, s, out). nat (e - i))") auto

declare rotate_left_loop.simps [simp del]

text \<open>
  The loop of the \<^verbatim>\<open>RIGHT\<close> branch (lines 135 to 146); here the only \<^verbatim>\<open>int\<close> arithmetic
  is the \<^verbatim>\<open>++i\<close> at the end of an iteration.
\<close>

function rotate_right_loop ::
  "int \<Rightarrow> byte \<Rightarrow> int \<Rightarrow> ifstream \<Rightarrow> ofstream \<Rightarrow> error + (ifstream \<times> ofstream)" where
  "rotate_right_loop end_position saved_bit i inp out =
     (if i < end_position then
        (case get inp of
           (c, inp1) \<Rightarrow>
             let character = to_uint8 c;
                 next_bit = character AND 0x01;
                 character' = word_rotr 1 character;
                 character'' = (0x7F AND character') OR (0xA0 AND word_rotl 7 saved_bit)
             in if i = INT_MAX then Inl Signed_overflow
                else rotate_right_loop end_position next_bit (i + 1) inp1 (put character'' out))
      else Inr (inp, out))"
  by pat_completeness auto
termination
  by (relation "measure (\<lambda>(e, f, i, s, out). nat (e - i))") auto

declare rotate_right_loop.simps [simp del]

text \<open>
  \<^verbatim>\<open>rotate(input, output, instruction)\<close>. The enum has two values, so exactly one of the
  two \<^verbatim>\<open>if\<close> blocks of the source runs.
\<close>

definition rotate :: "ifstream \<Rightarrow> ofstream \<Rightarrow> Instruction \<Rightarrow> error + (ifstream \<times> ofstream)" where
  "rotate input output instruction =
     (case tellg input of
        (start_position, in1) \<Rightarrow>
          (case tellg (seekg_end 0 in1) of
             (end_position, in2) \<Rightarrow>
               let in3 = seekg start_position in2
               in (case instruction of
                     LEFT \<Rightarrow>
                       (case peek in3 of
                          (peeked_char, in4) \<Rightarrow>
                            let first_bit = to_uint8 peeked_char AND 0xA0
                            in rotate_left_loop end_position first_bit 0 in4 output)
                   | RIGHT \<Rightarrow>
                       (case peek (seekg_end (- 1) in3) of
                          (peeked_char, in4) \<Rightarrow>
                            let saved_bit = to_uint8 peeked_char AND 0x01;
                                in5 = seekg start_position in4
                            in rotate_right_loop end_position saved_bit 0 in5 output))))"

text \<open>
  The rotation of a file's contents as \<^verbatim>\<open>main\<close> runs it: a freshly opened input stream
  and an empty output stream; the result is what the output stream holds at the end.
\<close>

definition rotate_bytes :: "byte list \<Rightarrow> Instruction \<Rightarrow> error + byte list" where
  "rotate_bytes b d = map_sum id snd (rotate (ifstream_open b) [] d)"

section \<open>The command line\<close>

text \<open>
  A \<^verbatim>\<open>const char*\<close> argument is modelled by the characters it points to; the string it
  denotes ends before the first NUL (or at the end of the list, where the terminator is).
\<close>

definition c_str :: "string \<Rightarrow> string" where
  "c_str s = takeWhile (\<lambda>c. c \<noteq> CHR 0x00) s"

text \<open>\<^verbatim>\<open>strnlen(s, n)\<close>: the length of the string, but at most \<open>n\<close>.\<close>

definition strnlen :: "string \<Rightarrow> nat \<Rightarrow> nat" where
  "strnlen s n = min n (length (c_str s))"

text \<open>
  \<^verbatim>\<open>strncmp(a, b, n)\<close>: compares at most \<open>n\<close> characters as unsigned values and stops at
  the first difference or at the terminator.
\<close>

fun strncmp_chars :: "string \<Rightarrow> string \<Rightarrow> nat \<Rightarrow> int" where
  "strncmp_chars a b 0 = 0"
| "strncmp_chars [] [] (Suc n) = 0"
| "strncmp_chars [] (y # ys) (Suc n) = - int (of_char y)"
| "strncmp_chars (x # xs) [] (Suc n) = int (of_char x)"
| "strncmp_chars (x # xs) (y # ys) (Suc n) =
     (if x = y then strncmp_chars xs ys n else int (of_char x) - int (of_char y))"

definition strncmp :: "string \<Rightarrow> string \<Rightarrow> nat \<Rightarrow> int" where
  "strncmp a b n = strncmp_chars (c_str a) (c_str b) n"

text \<open>What is written to \<^verbatim>\<open>std::cerr\<close> is a list of lines.\<close>

definition print_help :: "string list" where
  "print_help = [''Usage:'', ''  rotate <left|right> <in-file> <out-file>'']"

text \<open>\<^verbatim>\<open>parse_instruction\<close>: the instruction, if any, and the lines written to \<^verbatim>\<open>std::cerr\<close>.\<close>

definition parse_instruction :: "string \<Rightarrow> Instruction option \<times> string list" where
  "parse_instruction instruction =
     (let left = ''left'';
          left_size = length left;
          right = ''right'';
          right_size = length right;
          max_size = max left_size right_size
      in if strnlen instruction (max_size + 1) > max_size
         then (None, ''ERROR: The instruction is too long'' # print_help)
         else if strnlen instruction left_size = left_size
                 \<and> strncmp left instruction left_size = 0
         then (Some LEFT, [])
         else if strnlen instruction right_size = right_size
                 \<and> strncmp right instruction right_size = 0
         then (Some RIGHT, [])
         else (None, ''ERROR: The instruction is invalid'' # print_help))"

section \<open>main\<close>

text \<open>
  The files the program touches. A path names a file (two spellings may name the same
  one); a file has contents and permissions. \<open>creatable\<close> gives the file that opening a
  missing path for writing creates, if the directory allows it.
\<close>

record filesystem =
  lookup :: "string \<Rightarrow> nat option"
  contents :: "nat \<Rightarrow> byte list"
  readable :: "nat \<Rightarrow> bool"
  writable :: "nat \<Rightarrow> bool"
  creatable :: "string \<Rightarrow> nat option"

text \<open>\<^verbatim>\<open>input.open(path, in | binary)\<close> followed by \<^verbatim>\<open>input.good()\<close>.\<close>

definition open_input :: "filesystem \<Rightarrow> string \<Rightarrow> nat option" where
  "open_input fs path =
     (case lookup fs path of
        None \<Rightarrow> None
      | Some f \<Rightarrow> if readable fs f then Some f else None)"

text \<open>
  \<^verbatim>\<open>output.open(path, out | binary)\<close> followed by \<^verbatim>\<open>output.good()\<close>: an existing file
  is truncated, a missing one is created empty.
\<close>

definition open_output :: "filesystem \<Rightarrow> string \<Rightarrow> (nat \<times> filesystem) option" where
  "open_output fs path =
     (case lookup fs path of
        Some f \<Rightarrow>
          if writable fs f then Some (f, fs\<lparr>contents := (contents fs)(f := [])\<rparr>) else None
      | None \<Rightarrow>
          (case creatable fs path of
             None \<Rightarrow> None
           | Some f \<Rightarrow>
               Some (f, fs\<lparr>lookup := (lookup fs)(path \<mapsto> f),
                          contents := (contents fs)(f := [])\<rparr>)))"

definition EXIT_SUCCESS :: int where
  "EXIT_SUCCESS = 0"

definition EXIT_FAILURE :: int where
  "EXIT_FAILURE = 1"

text \<open>\<^verbatim>\<open>PATH_MAX\<close> of \<^verbatim>\<open><linux/limits.h>\<close>.\<close>

definition PATH_MAX :: nat where
  "PATH_MAX = 4096"

text \<open>
  What a run of \<^verbatim>\<open>main\<close> leaves behind: the exit code, the lines on \<^verbatim>\<open>std::cerr\<close> and
  the files. \<open>rotate_called\<close> is not a value of the program: it records whether control
  reached the call of \<^verbatim>\<open>rotate\<close> on line 200.
\<close>

record main_result =
  exit_code :: int
  cerr :: "string list"
  files :: filesystem
  rotate_called :: bool

text \<open>The test of line 168.\<close>

definition same_path :: "string \<Rightarrow> string \<Rightarrow> bool" where
  "same_path a b = (strncmp a b PATH_MAX = 0)"

text \<open>
  \<^verbatim>\<open>main(argc, argv)\<close>, with \<open>argc = length argv\<close>. The input stream reads the file as
  it is after the output file has been opened, since nothing is read before.
\<close>

definition main :: "filesystem \<Rightarrow> string list \<Rightarrow> error + main_result" where
  "main fs argv =
     (if length argv \<noteq> 4 then
        Inr \<lparr>exit_code = EXIT_FAILURE, cerr = print_help, files = fs, rotate_called = False\<rparr>
      else
        (case parse_instruction (argv ! 1) of
           (None, e) \<Rightarrow>
             Inr \<lparr>exit_code = EXIT_FAILURE,
                  cerr = e @ [''ERROR: Rotation instruction could not be parsed''],
                  files = fs, rotate_called = False\<rparr>
         | (Some instruction, e) \<Rightarrow>
             if same_path (argv ! 2) (argv ! 3) then
               Inr \<lparr>exit_code = EXIT_FAILURE,
                    cerr = e @ [''ERROR: There is no support to reading and writing to the same file''],
                    files = fs, rotate_called = False\<rparr>
             else
               (case open_input fs (c_str (argv ! 2)) of
                  None \<Rightarrow>
                    Inr \<lparr>exit_code = EXIT_FAILURE,
                         cerr = e @ ''ERROR: Input file could not be opened'' # print_help,
                         files = fs, rotate_called = False\<rparr>
                | Some fin \<Rightarrow>
                    (case open_output fs (c_str (argv ! 3)) of
                       None \<Rightarrow>
                         Inr \<lparr>exit_code = EXIT_FAILURE,
                              cerr = e @ ''ERROR: Output file could not be opened'' # print_help,
                              files = fs, rotate_called = False\<rparr>
                     | Some (fout, fs1) \<Rightarrow>
                         let input = ifstream_open (contents fs1 fin)
                         in if eof input then
                              Inr \<lparr>exit_code = EXIT_SUCCESS, cerr = e, files = fs1,
                                   rotate_called = False\<rparr>
                            else
                              (case rotate input [] instruction of
                                 Inl u \<Rightarrow> Inl u
                               | Inr (input', output') \<Rightarrow>
                                   let fs2 = fs1\<lparr>contents := (contents fs1)(fout := output')\<rparr>
                                   in if length (contents fs2 fin) \<noteq> length (contents fs2 fout)
                                      then
                                        Inr \<lparr>exit_code = EXIT_FAILURE,
                                             cerr = e @ [''ERROR: Processing failed, output file is wrong size.''],
                                             files = fs2, rotate_called = True\<rparr>
                                      else
                                        Inr \<lparr>exit_code = EXIT_SUCCESS, cerr = e, files = fs2,
                                             rotate_called = True\<rparr>)))))"

section \<open>Definitions used to state the properties\<close>

subsection \<open>The rotation in closed form\<close>

text \<open>An input stream in the good state, at position \<open>p\<close> of the bytes \<open>b\<close>.\<close>

definition stream_at :: "byte list \<Rightarrow> nat \<Rightarrow> ifstream" where
  "stream_at b p = \<lparr>data = b, gpos = p, eofbit = False, failbit = False\<rparr>"

text \<open>The expressions of lines 109 and 119, and of lines 140 and 142.\<close>

definition left_byte :: "byte \<Rightarrow> byte \<Rightarrow> byte" where
  "left_byte character peeked_bit =
     (0xFE AND word_rotl 1 character) OR (0x01 AND word_rotr 7 peeked_bit)"

definition right_byte :: "byte \<Rightarrow> byte \<Rightarrow> byte" where
  "right_byte character saved_bit =
     (0x7F AND word_rotr 1 character) OR (0xA0 AND word_rotl 7 saved_bit)"

text \<open>What the two loops write, byte by byte.\<close>

definition rotl_list :: "byte list \<Rightarrow> byte list" where
  "rotl_list b =
     map (\<lambda>j. left_byte (b ! j)
                (if Suc j < length b then b ! Suc j AND 0xA0 else hd b AND 0xA0))
       [0..<length b]"

definition rotr_list :: "byte list \<Rightarrow> byte list" where
  "rotr_list b =
     map (\<lambda>j. right_byte (b ! j)
                (if j = 0 then last b AND 0x01 else b ! (j - 1) AND 0x01))
       [0..<length b]"

definition rot_list :: "Instruction \<Rightarrow> byte list \<Rightarrow> byte list" where
  "rot_list d b = (case d of LEFT \<Rightarrow> rotl_list b | RIGHT \<Rightarrow> rotr_list b)"

subsection \<open>The reference formulas of the specification\<close>

text \<open>
  \<^verbatim>\<open>out[i] = ((in[i] << 1 | in[i] >> 7) & 0xFE) | (in[next] >> 7)\<close> with
  \<^verbatim>\<open>next = (i+1) mod N\<close>, on 8-bit unsigned values.
\<close>

definition spec_left_byte :: "byte list \<Rightarrow> nat \<Rightarrow> byte" where
  "spec_left_byte inp i =
     ((push_bit 1 (inp ! i) OR drop_bit 7 (inp ! i)) AND 0xFE)
       OR drop_bit 7 (inp ! ((i + 1) mod length inp))"

text \<open>
  \<^verbatim>\<open>out[i] = ((in[i] >> 1 | in[i] << 7) & 0x7F) | ((in[prev] & 0x01) << 7)\<close> with
  \<^verbatim>\<open>prev = (i-1+N) mod N\<close>.
\<close>

definition spec_right_byte :: "byte list \<Rightarrow> nat \<Rightarrow> byte" where
  "spec_right_byte inp i =
     ((drop_bit 1 (inp ! i) OR push_bit 7 (inp ! i)) AND 0x7F)
       OR push_bit 7 (inp ! nat ((int i - 1 + int (length inp)) mod int (length inp)) AND 0x01)"

subsection \<open>Running the program several times\<close>

text \<open>One more run on the output of a run, if there is one.\<close>

definition then_rotate :: "error + byte list \<Rightarrow> Instruction \<Rightarrow> error + byte list" where
  "then_rotate r d = (case r of Inl e \<Rightarrow> Inl e | Inr b \<Rightarrow> rotate_bytes b d)"

primrec rotate_times :: "nat \<Rightarrow> Instruction \<Rightarrow> byte list \<Rightarrow> error + byte list" where
  "rotate_times 0 d b = Inr b"
| "rotate_times (Suc n) d b = then_rotate (rotate_times n d b) d"

text \<open>The bit of a byte sequence at position \<open>k\<close>, counted from the most significant bit of byte 0.\<close>

definition stream_bit :: "byte list \<Rightarrow> nat \<Rightarrow> bool" where
  "stream_bit b k = bit (b ! (k div 8)) (7 - k mod 8)"

subsection \<open>The variant with the single-bit mask\<close>

text \<open>
  \<^verbatim>\<open>rotate\<close> with \<^verbatim>\<open>0x80\<close> where the source has \<^verbatim>\<open>0xA0\<close> (lines 104, 117 and 142), as the
  specification's note on the mask asks for; everything else is the code's.
\<close>

function rotate_left_loop_msb ::
  "int \<Rightarrow> byte \<Rightarrow> int \<Rightarrow> ifstream \<Rightarrow> ofstream \<Rightarrow> error + (ifstream \<times> ofstream)" where
  "rotate_left_loop_msb end_position first_bit i inp out =
     (if i < end_position then
        (case get inp of
           (c, inp1) \<Rightarrow>
             let character = word_rotl 1 (to_uint8 c)
             in if i = INT_MAX then Inl Signed_overflow
                else
                  (case (if i + 1 < end_position
                         then (case peek inp1 of (p, inp2) \<Rightarrow> (to_uint8 p AND 0x80, inp2))
                         else (first_bit, inp1)) of
                     (peeked_bit, inp3) \<Rightarrow>
                       let character' = (0xFE AND character) OR (0x01 AND word_rotr 7 peeked_bit)
                       in rotate_left_loop_msb end_position first_bit (i + 1) inp3
                            (put character' out)))
      else Inr (inp, out))"
  by pat_completeness auto
termination
  by (relation "measure (\<lambda>(e, f, i, s, out). nat (e - i))") auto

declare rotate_left_loop_msb.simps [simp del]

function rotate_right_loop_msb ::
  "int \<Rightarrow> byte \<Rightarrow> int \<Rightarrow> ifstream \<Rightarrow> ofstream \<Rightarrow> error + (ifstream \<times> ofstream)" where
  "rotate_right_loop_msb end_position saved_bit i inp out =
     (if i < end_position then
        (case get inp of
           (c, inp1) \<Rightarrow>
             let character = to_uint8 c;
                 next_bit = character AND 0x01;
                 character' = word_rotr 1 character;
                 character'' = (0x7F AND character') OR (0x80 AND word_rotl 7 saved_bit)
             in if i = INT_MAX then Inl Signed_overflow
                else rotate_right_loop_msb end_position next_bit (i + 1) inp1
                       (put character'' out))
      else Inr (inp, out))"
  by pat_completeness auto
termination
  by (relation "measure (\<lambda>(e, f, i, s, out). nat (e - i))") auto

declare rotate_right_loop_msb.simps [simp del]

definition rotate_msb ::
  "ifstream \<Rightarrow> ofstream \<Rightarrow> Instruction \<Rightarrow> error + (ifstream \<times> ofstream)" where
  "rotate_msb input output instruction =
     (case tellg input of
        (start_position, in1) \<Rightarrow>
          (case tellg (seekg_end 0 in1) of
             (end_position, in2) \<Rightarrow>
               let in3 = seekg start_position in2
               in (case instruction of
                     LEFT \<Rightarrow>
                       (case peek in3 of
                          (peeked_char, in4) \<Rightarrow>
                            let first_bit = to_uint8 peeked_char AND 0x80
                            in rotate_left_loop_msb end_position first_bit 0 in4 output)
                   | RIGHT \<Rightarrow>
                       (case peek (seekg_end (- 1) in3) of
                          (peeked_char, in4) \<Rightarrow>
                            let saved_bit = to_uint8 peeked_char AND 0x01;
                                in5 = seekg start_position in4
                            in rotate_right_loop_msb end_position saved_bit 0 in5 output))))"

text \<open>The variant run on a file's contents, as \<open>rotate_bytes\<close> runs the code.\<close>

definition rotate_bytes_msb :: "byte list \<Rightarrow> Instruction \<Rightarrow> error + byte list" where
  "rotate_bytes_msb b d = map_sum id snd (rotate_msb (ifstream_open b) [] d)"

subsection \<open>Concrete inputs\<close>

text \<open>A file of \<open>2^31\<close> zero bytes, one more than \<^verbatim>\<open>INT_MAX\<close>.\<close>

definition two_gib_file :: "byte list" where
  "two_gib_file = replicate 2147483648 0"

text \<open>
  A directory with an empty, readable file \<^verbatim>\<open>in\<close> and no file \<^verbatim>\<open>out\<close>, which can be
  created.
\<close>

definition empty_input_fs :: filesystem where
  "empty_input_fs =
     \<lparr>lookup = [''in'' \<mapsto> 0], contents = (\<lambda>f. []), readable = (\<lambda>f. True),
      writable = (\<lambda>f. True), creatable = [''out'' \<mapsto> 1]\<rparr>"

text \<open>A directory where \<^verbatim>\<open>data\<close> and \<^verbatim>\<open>./data\<close> name the same one-byte file.\<close>

definition alias_fs :: filesystem where
  "alias_fs =
     \<lparr>lookup = [''data'' \<mapsto> 0, ''./data'' \<mapsto> 0], contents = (\<lambda>f. [0x81]),
      readable = (\<lambda>f. True), writable = (\<lambda>f. True), creatable = (\<lambda>p. None)\<rparr>"

section \<open>Bytes\<close>

lemma lt8_cases: "n < 8 \<Longrightarrow> n \<in> {0, 1, 2, 3, 4, 5, 6, 7::nat}"
  by auto

text \<open>Two bytes are equal when their eight bits are.\<close>

lemma byte_eq_iff:
  "x = y \<longleftrightarrow>
     (bit x 0 = bit y 0 \<and> bit x 1 = bit y 1 \<and> bit x 2 = bit y 2 \<and> bit x 3 = bit y 3
      \<and> bit x 4 = bit y 4 \<and> bit x 5 = bit y 5 \<and> bit x 6 = bit y 6 \<and> bit x 7 = bit y 7)"
  for x y :: byte
proof
  assume r: "bit x 0 = bit y 0 \<and> bit x 1 = bit y 1 \<and> bit x 2 = bit y 2 \<and> bit x 3 = bit y 3
      \<and> bit x 4 = bit y 4 \<and> bit x 5 = bit y 5 \<and> bit x 6 = bit y 6 \<and> bit x 7 = bit y 7"
  show "x = y"
  proof (rule bit_word_eqI)
    fix n assume "n < LENGTH(8)"
    then have "n < 8" by simp
    from lt8_cases [OF this] r show "bit x n = bit y n" by auto
  qed
qed simp

lemma byte_high_bit [simp]: "8 \<le> n \<Longrightarrow> \<not> bit (x::byte) n"
  by (auto dest: bit_imp_le_length)

lemmas byte_bits =
  byte_eq_iff bit_simps numeral_2_eq_2 [symmetric] numeral_3_eq_3 [symmetric]

text \<open>Only bit 7 of the masked lookahead byte survives line 119; it lands in bit 0.\<close>

lemma peeked_bit_msb: "0x01 AND word_rotr 7 (x AND 0xA0) = drop_bit 7 (x::byte)"
  by (simp add: byte_bits del: push_bit_Suc)

lemma rotl_as_shifts: "word_rotl 1 x = push_bit 1 x OR drop_bit 7 (x::byte)"
  by (simp add: byte_bits del: push_bit_Suc)

lemma rotr_as_shifts: "word_rotr 1 x = drop_bit 1 x OR push_bit 7 (x::byte)"
  by (simp add: byte_bits del: push_bit_Suc)

lemma saved_bit_msb: "0xA0 AND word_rotl 7 (x AND 0x01) = push_bit 7 (x AND (0x01::byte))"
  by (simp add: byte_bits del: push_bit_Suc)

lemma mask_left_same:
  "0x01 AND word_rotr 7 (x AND 0xA0) = 0x01 AND word_rotr 7 (x AND (0x80::byte))"
  by (simp add: byte_bits del: push_bit_Suc)

lemma mask_right_same:
  "0xA0 AND word_rotl 7 (x AND 0x01) = 0x80 AND word_rotl 7 (x AND (0x01::byte))"
  by (simp add: byte_bits del: push_bit_Suc)

text \<open>
  A byte of a left rotation, rotated right with the low bit of its left neighbour, is the
  input byte again; and the same with the directions exchanged.
\<close>

lemma right_byte_left_byte:
  "right_byte (left_byte x (y AND 0xA0)) (left_byte z (x AND 0xA0) AND 0x01) = x"
  by (simp add: left_byte_def right_byte_def byte_bits del: push_bit_Suc)

lemma left_byte_right_byte:
  "left_byte (right_byte x (y AND 0x01)) (right_byte z (x AND 0x01) AND 0xA0) = x"
  by (simp add: left_byte_def right_byte_def byte_bits del: push_bit_Suc)

lemma to_uint8_uint [simp]: "to_uint8 (uint w) = w"
  by (simp add: to_uint8_def)

section \<open>The loops of rotate\<close>

text \<open>On a good stream inside the file, \<open>get\<close> and \<open>peek\<close> return the byte at the position.\<close>

lemma get_stream_at: "p < length b \<Longrightarrow> get (stream_at b p) = (uint (b ! p), stream_at b (Suc p))"
  by (simp add: get_def sentry_def good_def stream_at_def)

lemma peek_stream_at: "p < length b \<Longrightarrow> peek (stream_at b p) = (uint (b ! p), stream_at b p)"
  by (simp add: peek_def sentry_def good_def stream_at_def)

text \<open>
  Within the range of the counter the loops run to the end of the file and write one
  byte for each byte read.
\<close>

lemma rotate_left_loop_run:
  assumes "int (length b) \<le> INT_MAX"
  shows "i \<le> length b \<Longrightarrow>
    rotate_left_loop (int (length b)) fb (int i) (stream_at b i) out =
      Inr (stream_at b (length b),
           out @ map (\<lambda>j. left_byte (b ! j) (if Suc j < length b then b ! Suc j AND 0xA0 else fb))
                   [i..<length b])"
proof (induction "length b - i" arbitrary: i out)
  case 0
  then have "i = length b" by simp
  then show ?case by (simp add: rotate_left_loop.simps)
next
  case (Suc k)
  then have lt: "i < length b" by simp
  with assms have ni: "int i \<noteq> INT_MAX" by simp
  have k: "k = length b - Suc i" using Suc.hyps by simp
  have ih: "rotate_left_loop (int (length b)) fb (int (Suc i)) (stream_at b (Suc i)) out' =
      Inr (stream_at b (length b),
           out' @ map (\<lambda>j. left_byte (b ! j) (if Suc j < length b then b ! Suc j AND 0xA0 else fb))
                   [Suc i..<length b])" for out'
    using Suc.hyps(1) [OF k] lt by simp
  have up: "[i..<length b] = i # [Suc i..<length b]"
    using lt by (simp add: upt_conv_Cons)
  show ?case
    using lt ni ih
    by (subst rotate_left_loop.simps) (simp add: get_stream_at peek_stream_at up put_def left_byte_def Let_def add.commute)
qed


lemma rotate_right_loop_run:
  assumes "int (length b) \<le> INT_MAX" and "\<And>j. g (Suc j) = b ! j AND 0x01"
  shows "i \<le> length b \<Longrightarrow>
    rotate_right_loop (int (length b)) (g i) (int i) (stream_at b i) out =
      Inr (stream_at b (length b), out @ map (\<lambda>j. right_byte (b ! j) (g j)) [i..<length b])"
proof (induction "length b - i" arbitrary: i out)
  case 0
  then have "i = length b" by simp
  then show ?case by (simp add: rotate_right_loop.simps)
next
  case (Suc k)
  then have lt: "i < length b" by simp
  with assms have ni: "int i \<noteq> INT_MAX" by simp
  have k: "k = length b - Suc i" using Suc.hyps by simp
  have ih: "rotate_right_loop (int (length b)) (b ! i AND 0x01) (int (Suc i)) (stream_at b (Suc i)) out' =
      Inr (stream_at b (length b), out' @ map (\<lambda>j. right_byte (b ! j) (g j)) [Suc i..<length b])"
    for out'
    using Suc.hyps(1) [OF k, of out'] lt assms(2) [of i] by simp
  have up: "[i..<length b] = i # [Suc i..<length b]"
    using lt by (simp add: upt_conv_Cons)
  show ?case
    using lt ni ih
    by (subst rotate_right_loop.simps) (simp add: get_stream_at up put_def right_byte_def Let_def add.commute)
qed

text \<open>
  On a longer file the counter reaches \<^verbatim>\<open>INT_MAX\<close> inside the loop, whatever has been
  written so far.
\<close>

lemma rotate_left_loop_overflow:
  assumes "INT_MAX < int (length b)"
  shows "int i \<le> INT_MAX \<Longrightarrow>
    rotate_left_loop (int (length b)) fb (int i) (stream_at b i) out = Inl Signed_overflow"
proof (induction "nat INT_MAX - i" arbitrary: i out)
  case 0
  then have "int i = INT_MAX" by simp
  with assms show ?case
    by (subst rotate_left_loop.simps) (simp add: Let_def split: prod.split)
next
  case (Suc k)
  then have ni: "int i < INT_MAX" by simp
  with assms have lt: "Suc i < length b" by simp
  have k: "k = nat INT_MAX - Suc i" using Suc.hyps by simp
  have ih: "rotate_left_loop (int (length b)) fb (int (Suc i)) (stream_at b (Suc i)) out' =
      Inl Signed_overflow" for out'
    using Suc.hyps(1) [OF k] ni by simp
  show ?case
    using lt ni ih
    by (subst rotate_left_loop.simps) (simp add: get_stream_at peek_stream_at Let_def add.commute)
qed

lemma rotate_right_loop_overflow:
  assumes "INT_MAX < int (length b)"
  shows "int i \<le> INT_MAX \<Longrightarrow>
    rotate_right_loop (int (length b)) sb (int i) (stream_at b i) out = Inl Signed_overflow"
proof (induction "nat INT_MAX - i" arbitrary: i out sb)
  case 0
  then have "int i = INT_MAX" by simp
  with assms show ?case
    by (subst rotate_right_loop.simps) (simp add: Let_def split: prod.split)
next
  case (Suc k)
  then have ni: "int i < INT_MAX" by simp
  with assms have lt: "Suc i < length b" by simp
  have k: "k = nat INT_MAX - Suc i" using Suc.hyps by simp
  have ih: "rotate_right_loop (int (length b)) sb' (int (Suc i)) (stream_at b (Suc i)) out' =
      Inl Signed_overflow" for out' sb'
    using Suc.hyps(1) [OF k] ni by simp
  show ?case
    using lt ni ih
    by (subst rotate_right_loop.simps) (simp add: get_stream_at Let_def add.commute)
qed

text \<open>The set-up of rotate on a freshly opened, non-empty file.\<close>

lemma rotate_LEFT_setup:
  "b \<noteq> [] \<Longrightarrow> rotate (ifstream_open b) out LEFT =
     rotate_left_loop (int (length b)) (hd b AND 0xA0) 0 (stream_at b 0) out"
  by (simp add: rotate_def ifstream_open_def tellg_def seekg_end_def seekg_def sentry_def good_def
      peek_def stream_at_def Let_def hd_conv_nth)

lemma rotate_RIGHT_setup:
  "b \<noteq> [] \<Longrightarrow> rotate (ifstream_open b) out RIGHT =
     rotate_right_loop (int (length b)) (last b AND 0x01) 0 (stream_at b 0) out"
  apply (simp add: rotate_def ifstream_open_def tellg_def seekg_end_def seekg_def sentry_def good_def
      peek_def stream_at_def Let_def last_conv_nth)
  apply (auto simp: nat_diff_distrib' last_conv_nth)?
  done

lemma rotate_empty:
  "rotate (ifstream_open []) out d = Inr (\<lparr>data = [], gpos = 0, eofbit = (d = LEFT), failbit = (d = RIGHT)\<rparr>, out)"
  by (cases d) (simp_all add: rotate_def ifstream_open_def tellg_def seekg_end_def seekg_def sentry_def good_def
      peek_def Let_def rotate_left_loop.simps rotate_right_loop.simps)

section \<open>Properties of the closed form\<close>

text \<open>The code's byte expressions are the reference formulas of the specification.\<close>

lemma left_byte_spec:
  "left_byte x (y AND 0xA0) = ((push_bit 1 x OR drop_bit 7 x) AND 0xFE) OR drop_bit 7 y"
  by (simp add: left_byte_def byte_bits del: push_bit_Suc)

lemma right_byte_spec:
  "right_byte x (y AND 0x01) = ((drop_bit 1 x OR push_bit 7 x) AND 0x7F) OR push_bit 7 (y AND 0x01)"
  by (simp add: right_byte_def byte_bits del: push_bit_Suc)

lemma length_rotl_list [simp]: "length (rotl_list b) = length b"
  by (simp add: rotl_list_def)

lemma length_rotr_list [simp]: "length (rotr_list b) = length b"
  by (simp add: rotr_list_def)

lemma length_rot_list [simp]: "length (rot_list d b) = length b"
  by (cases d) (simp_all add: rot_list_def)

text \<open>The whole of \<^verbatim>\<open>rotate\<close> on a freshly opened file.\<close>

lemma rotate_bytes_eq:
  "rotate_bytes b d =
     (if int (length b) \<le> INT_MAX then Inr (rot_list d b) else Inl Signed_overflow)"
proof (cases "b = []")
  case True
  then show ?thesis
    by (cases d) (simp_all add: rotate_bytes_def rotate_empty rot_list_def rotl_list_def rotr_list_def INT_MAX_def)
next
  case ne: False
  show ?thesis
  proof (cases "int (length b) \<le> INT_MAX")
    case le: True
    show ?thesis
    proof (cases d)
      case LEFT
      with ne le show ?thesis
        using rotate_left_loop_run [OF le, of 0 "hd b AND 0xA0" "[]"]
        by (simp add: rotate_bytes_def rotate_LEFT_setup rot_list_def rotl_list_def)
    next
      case RIGHT
      define g where "g j = (if j = 0 then last b AND 0x01 else b ! (j - 1) AND 0x01)" for j
      have g: "g (Suc j) = b ! j AND 0x01" for j by (simp add: g_def)
      have g0: "g 0 = last b AND 0x01" by (simp add: g_def)
      from RIGHT ne le show ?thesis
        using rotate_right_loop_run [OF le, of g 0 "[]"] g g0
        by (simp add: rotate_bytes_def rotate_RIGHT_setup rot_list_def rotr_list_def g_def)
    qed
  next
    case False
    then have gt: "INT_MAX < int (length b)" by simp
    have z: "int 0 \<le> INT_MAX" by (simp add: INT_MAX_def)
    show ?thesis
    proof (cases d)
      case LEFT
      with ne gt show ?thesis
        using rotate_left_loop_overflow [OF gt z, of "hd b AND 0xA0" "[]"]
        by (simp add: rotate_bytes_def rotate_LEFT_setup)
    next
      case RIGHT
      with ne gt show ?thesis
        using rotate_right_loop_overflow [OF gt z, of "last b AND 0x01" "[]"]
        by (simp add: rotate_bytes_def rotate_RIGHT_setup)
    qed
  qed
qed

lemma rotl_list_nth_spec:
  assumes "i < length b"
  shows "rotl_list b ! i = spec_left_byte b i"
proof -
  have nxt: "(if Suc i < length b then b ! Suc i else hd b) = b ! ((i + 1) mod length b)"
  proof (cases "Suc i < length b")
    case True then show ?thesis by simp
  next
    case False
    with assms have "Suc i = length b" by simp
    then have "(i + 1) mod length b = 0" by simp
    moreover from assms have "b \<noteq> []" by auto
    ultimately show ?thesis using False by (simp add: hd_conv_nth)
  qed
  have "rotl_list b ! i =
      left_byte (b ! i) ((if Suc i < length b then b ! Suc i else hd b) AND 0xA0)"
    using assms by (simp add: rotl_list_def)
  also have "\<dots> = spec_left_byte b i"
    unfolding nxt by (simp only: left_byte_spec spec_left_byte_def)
  finally show ?thesis .
qed

lemma rotr_list_nth_spec:
  assumes "i < length b"
  shows "rotr_list b ! i = spec_right_byte b i"
proof -
  have prv: "(if i = 0 then last b else b ! (i - 1)) =
      b ! nat ((int i - 1 + int (length b)) mod int (length b))"
  proof (cases "i = 0")
    case True
    with assms have "b \<noteq> []" by auto
    moreover have "nat ((int i - 1 + int (length b)) mod int (length b)) = length b - 1"
      using True assms by (simp add: zmod_minus1 nat_diff_distrib')
    ultimately show ?thesis using True by (simp add: last_conv_nth)
  next
    case False
    then have "(int i - 1 + int (length b)) mod int (length b) = int i - 1"
      using assms by simp
    with False show ?thesis by (simp add: nat_diff_distrib')
  qed
  have "rotr_list b ! i =
      right_byte (b ! i) ((if i = 0 then last b else b ! (i - 1)) AND 0x01)"
    using assms by (simp add: rotr_list_def)
  also have "\<dots> = spec_right_byte b i"
    unfolding prv by (simp only: right_byte_spec spec_right_byte_def)
  finally show ?thesis .
qed

text \<open>The two closed forms undo each other, on every byte sequence.\<close>

lemma rotr_rotl_list: "rotr_list (rotl_list b) = b"
proof (rule nth_equalityI)
  show "length (rotr_list (rotl_list b)) = length b" by simp
next
  fix j assume "j < length (rotr_list (rotl_list b))"
  then have j: "j < length b" by simp
  then have ne: "b \<noteq> []" by auto
  let ?pk = "\<lambda>k. (if Suc k < length b then b ! Suc k else hd b)"
  have L: "rotl_list b ! k = left_byte (b ! k) (?pk k AND 0xA0)" if "k < length b" for k
    using that by (simp add: rotl_list_def)
  have sv: "\<exists>z. (if j = 0 then last (rotl_list b) else rotl_list b ! (j - 1)) =
      left_byte z (b ! j AND 0xA0)"
  proof (cases "j = 0")
    case True
    have "last (rotl_list b) = rotl_list b ! (length b - 1)"
      using ne by (simp add: last_conv_nth rotl_list_def)
    also have "\<dots> = left_byte (b ! (length b - 1)) (hd b AND 0xA0)"
      using ne by (simp add: L)
    finally show ?thesis using True ne by (auto simp: hd_conv_nth)
  next
    case False
    then have "rotl_list b ! (j - 1) = left_byte (b ! (j - 1)) (b ! j AND 0xA0)"
      using j by (simp add: L)
    with False show ?thesis by auto
  qed
  then obtain z where z: "(if j = 0 then last (rotl_list b) else rotl_list b ! (j - 1)) =
      left_byte z (b ! j AND 0xA0)" ..
  have "rotr_list (rotl_list b) ! j =
      right_byte (rotl_list b ! j)
        ((if j = 0 then last (rotl_list b) else rotl_list b ! (j - 1)) AND 0x01)"
    using j by (simp add: rotr_list_def)
  also have "\<dots> = right_byte (rotl_list b ! j) (left_byte z (b ! j AND 0xA0) AND 0x01)"
    by (simp only: z)
  also have "\<dots> = right_byte (left_byte (b ! j) (?pk j AND 0xA0)) (left_byte z (b ! j AND 0xA0) AND 0x01)"
    using j by (simp only: L)
  also have "\<dots> = b ! j" by (rule right_byte_left_byte)
  finally show "rotr_list (rotl_list b) ! j = b ! j" .
qed

lemma rotl_rotr_list: "rotl_list (rotr_list b) = b"
proof (rule nth_equalityI)
  show "length (rotl_list (rotr_list b)) = length b" by simp
next
  fix j assume "j < length (rotl_list (rotr_list b))"
  then have j: "j < length b" by simp
  then have ne: "b \<noteq> []" by auto
  let ?sv = "\<lambda>k. (if k = 0 then last b else b ! (k - 1))"
  have R: "rotr_list b ! k = right_byte (b ! k) (?sv k AND 0x01)" if "k < length b" for k
    using that by (simp add: rotr_list_def)
  have pk: "\<exists>z. (if Suc j < length b then rotr_list b ! Suc j else hd (rotr_list b)) =
      right_byte z (b ! j AND 0x01)"
  proof (cases "Suc j < length b")
    case True
    then show ?thesis by (auto simp: R)
  next
    case False
    with j have e: "j = length b - 1" by simp
    have "hd (rotr_list b) = rotr_list b ! 0"
      using ne by (simp add: hd_conv_nth rotr_list_def)
    also have "\<dots> = right_byte (b ! 0) (last b AND 0x01)"
      using ne by (simp add: R)
    finally show ?thesis using False e ne by (auto simp: last_conv_nth)
  qed
  then obtain z where z: "(if Suc j < length b then rotr_list b ! Suc j else hd (rotr_list b)) =
      right_byte z (b ! j AND 0x01)" ..
  have "rotl_list (rotr_list b) ! j =
      left_byte (rotr_list b ! j)
        ((if Suc j < length b then rotr_list b ! Suc j else hd (rotr_list b)) AND 0xA0)"
    using j by (simp add: rotl_list_def)
  also have "\<dots> = left_byte (rotr_list b ! j) (right_byte z (b ! j AND 0x01) AND 0xA0)"
    by (simp only: z)
  also have "\<dots> = left_byte (right_byte (b ! j) (?sv j AND 0x01)) (right_byte z (b ! j AND 0x01) AND 0xA0)"
    using j by (simp only: R)
  also have "\<dots> = b ! j" by (rule left_byte_right_byte)
  finally show "rotl_list (rotr_list b) ! j = b ! j" .
qed

section \<open>The bits of the stream\<close>

text \<open>
  A left rotation moves every bit of the stream one place towards the start, the first
  bit to the end.
\<close>

lemma bit_left_byte_Suc: "n < 7 \<Longrightarrow> bit (left_byte x p) (Suc n) = bit x n"
proof -
  assume "n < 7"
  then have "n \<in> {0, 1, 2, 3, 4, 5, 6::nat}" by auto
  then show ?thesis
    by (auto simp: left_byte_def bit_simps simp flip: numeral_2_eq_2 numeral_3_eq_3)
qed

lemma bit_left_byte_0: "bit (left_byte x (y AND 0xA0)) 0 = bit y 7"
  by (simp add: left_byte_def bit_simps)

lemma stream_bit_rotl_list:
  assumes "k < 8 * length b"
  shows "stream_bit (rotl_list b) k = stream_bit b (Suc k mod (8 * length b))"
proof -
  define i m where "i = k div 8" and "m = k mod 8"
  have k: "k = 8 * i + m" and m8: "m < 8" by (simp_all add: i_def m_def)
  from assms have i: "i < length b" by (simp add: i_def less_mult_imp_div_less mult.commute)
  then have ne: "b \<noteq> []" by auto
  have kd: "k div 8 = i" and km: "k mod 8 = m" by (simp_all add: i_def m_def)
  have L: "rotl_list b ! i =
      left_byte (b ! i) ((if Suc i < length b then b ! Suc i else hd b) AND 0xA0)"
    using i by (simp add: rotl_list_def)
  show ?thesis
  proof (cases "m = 7")
    case m7: True
    have sk: "Suc k = 8 * Suc i" using k m7 by simp
    have lhs: "stream_bit (rotl_list b) k =
        bit (if Suc i < length b then b ! Suc i else hd b) 7"
      by (simp add: stream_bit_def kd km L m7 bit_left_byte_0)
    show ?thesis
    proof (cases "Suc i < length b")
      case True
      then have "Suc k < 8 * length b" using sk by simp
      then have "Suc k mod (8 * length b) = 8 * Suc i" using sk by simp
      then show ?thesis using True lhs by (simp add: stream_bit_def)
    next
      case False
      with i have "Suc i = length b" by simp
      then have "Suc k mod (8 * length b) = 0" using sk by simp
      then show ?thesis using False lhs ne by (simp add: stream_bit_def hd_conv_nth)
    qed
  next
    case False
    then have m: "m < 7" using m8 by simp
    have sk: "Suc k = 8 * i + Suc m" using k by simp
    have "Suc k < 8 * length b" using i m sk by simp
    then have md: "Suc k mod (8 * length b) = 8 * i + Suc m" using sk by simp
    have d: "(8 * i + Suc m) div 8 = i" using m by simp
    have r: "(8 * i + Suc m) mod 8 = Suc m" using m by simp
    have e: "7 - m = Suc (6 - m)" using m by simp
    have "stream_bit (rotl_list b) k = bit (b ! i) (6 - m)"
      unfolding stream_bit_def kd km L e using m by (simp add: bit_left_byte_Suc)
    also have "\<dots> = stream_bit b (8 * i + Suc m)"
      unfolding stream_bit_def d r by simp
    finally show ?thesis by (simp add: md)
  qed
qed

lemma length_funpow_rot_list [simp]: "length ((rot_list d ^^ n) b) = length b"
  by (induction n) simp_all

lemma length_funpow_rotl_list [simp]: "length ((rotl_list ^^ n) b) = length b"
  by (induction n) simp_all

lemma stream_bit_funpow_rotl_list:
  "k < 8 * length b \<Longrightarrow>
     stream_bit ((rotl_list ^^ n) b) k = stream_bit b ((k + n) mod (8 * length b))"
proof (induction n arbitrary: k)
  case 0
  then show ?case by simp
next
  case (Suc n)
  from Suc.prems have "0 < 8 * length b" by linarith
  then have lt: "Suc k mod (8 * length b) < 8 * length b"
    by (rule mod_less_divisor)
  have "stream_bit ((rotl_list ^^ Suc n) b) k =
      stream_bit ((rotl_list ^^ n) b) (Suc k mod (8 * length b))"
    using stream_bit_rotl_list [of k "(rotl_list ^^ n) b"] Suc.prems by simp
  also have "\<dots> = stream_bit b ((Suc k mod (8 * length b) + n) mod (8 * length b))"
    by (rule Suc.IH [OF lt])
  also have "(Suc k mod (8 * length b) + n) mod (8 * length b) = (k + Suc n) mod (8 * length b)"
    by (simp add: mod_add_left_eq)
  finally show ?case .
qed

text \<open>Byte sequences of one length with the same bits are equal.\<close>

lemma stream_bit_eqI:
  assumes len: "length a = length b"
    and bits: "\<And>k. k < 8 * length b \<Longrightarrow> stream_bit a k = stream_bit b k"
  shows "a = b"
proof (rule nth_equalityI [OF len])
  fix i assume "i < length a"
  then have i: "i < length b" using len by simp
  show "a ! i = b ! i"
  proof (rule bit_word_eqI)
    fix n assume "n < LENGTH(8)"
    then have n: "n < 8" by simp
    define r where "r = 7 - n"
    have r: "r < 8" and rn: "7 - r = n" using n by (simp_all add: r_def)
    let ?k = "8 * i + r"
    have k: "?k < 8 * length b" using i r by simp
    have d: "?k div 8 = i" using r by simp
    have m: "?k mod 8 = r" using r by simp
    from bits [OF k] show "bit (a ! i) n = bit (b ! i) n"
      unfolding stream_bit_def d m rn .
  qed
qed

text \<open>As many left rotations as the stream has bits give the stream back.\<close>

lemma rotl_list_full_cycle: "(rotl_list ^^ (8 * length b)) b = b"
  by (rule stream_bit_eqI) (simp_all add: stream_bit_funpow_rotl_list)

lemma rotr_funpow_rotl_funpow: "(rotr_list ^^ n) ((rotl_list ^^ n) b) = b"
proof (induction n arbitrary: b)
  case 0
  show ?case by simp
next
  case (Suc n)
  have "(rotr_list ^^ Suc n) ((rotl_list ^^ Suc n) b) =
      (rotr_list ^^ n) (rotr_list (rotl_list ((rotl_list ^^ n) b)))"
    by (simp add: funpow_swap1)
  also have "\<dots> = (rotr_list ^^ n) ((rotl_list ^^ n) b)"
    by (simp only: rotr_rotl_list)
  finally show ?case using Suc.IH by simp
qed

lemma rotr_list_full_cycle: "(rotr_list ^^ (8 * length b)) b = b"
  using rotr_funpow_rotl_funpow [of "8 * length b" b] by (simp add: rotl_list_full_cycle)

lemma rot_list_full_cycle: "(rot_list d ^^ (8 * length b)) b = b"
proof (cases d)
  case LEFT
  then have "rot_list d = rotl_list" by (auto simp: rot_list_def)
  then show ?thesis by (simp add: rotl_list_full_cycle)
next
  case RIGHT
  then have "rot_list d = rotr_list" by (auto simp: rot_list_def)
  then show ?thesis by (simp add: rotr_list_full_cycle)
qed

text \<open>The right rotation moves every bit one place towards the end, the last bit to the front.\<close>

lemma stream_bit_rotr_list:
  assumes "k < 8 * length b"
  shows "stream_bit (rotr_list b) k = stream_bit b ((k + 8 * length b - 1) mod (8 * length b))"
proof -
  let ?n = "8 * length b" and ?c = "rotr_list b"
  let ?k' = "(k + ?n - 1) mod ?n"
  from assms have pos: "0 < ?n" by linarith
  then have k': "?k' < 8 * length ?c" by simp
  have "Suc ?k' mod ?n = Suc (k + ?n - 1) mod ?n" by (rule mod_Suc_eq)
  moreover have "Suc (k + ?n - 1) = k + ?n" using pos by simp
  moreover have "(k + ?n) mod ?n = k" using assms by simp
  ultimately have again: "Suc ?k' mod ?n = k" by simp
  have "stream_bit b ?k' = stream_bit (rotl_list ?c) ?k'" by (simp only: rotl_rotr_list)
  also have "\<dots> = stream_bit ?c (Suc ?k' mod (8 * length ?c))"
    using k' by (rule stream_bit_rotl_list)
  also have "\<dots> = stream_bit ?c k" using again by simp
  finally show ?thesis by simp
qed

text \<open>Repeated runs, in closed form.\<close>

lemma rotate_times_eq:
  "rotate_times n d b =
     (if n = 0 \<or> int (length b) \<le> INT_MAX then Inr ((rot_list d ^^ n) b)
      else Inl Signed_overflow)"
proof (induction n)
  case 0
  show ?case by simp
next
  case (Suc n)
  show ?case
  proof (cases "int (length b) \<le> INT_MAX")
    case True
    then show ?thesis using Suc by (simp add: then_rotate_def rotate_bytes_eq)
  next
    case False
    then show ?thesis using Suc
      by (cases "n = 0") (simp_all add: then_rotate_def rotate_bytes_eq)
  qed
qed

section \<open>The two masks\<close>

text \<open>
  The loops with either mask agree: only bit 7 of the lookahead is used on the left, and
  the saved bit on the right is 0 or 1.
\<close>

lemma rotate_left_loop_msb_eq:
  "0x01 AND word_rotr 7 fb' = 0x01 AND word_rotr 7 fb \<Longrightarrow>
     rotate_left_loop_msb e fb' i s out = rotate_left_loop e fb i s out"
proof (induction "nat (e - i)" arbitrary: i s out)
  case 0
  then have "\<not> i < e" by simp
  then show ?case
    by (simp add: rotate_left_loop.simps [of e fb i] rotate_left_loop_msb.simps [of e fb' i])
next
  case (Suc k)
  then have lt: "i < e" by simp
  have k: "k = nat (e - (i + 1))" using Suc.hyps(2) by simp
  note ih = Suc.hyps(1) [OF k Suc.prems]
  show ?case
    by (subst rotate_left_loop.simps, subst rotate_left_loop_msb.simps)
      (simp add: lt Let_def ih mask_left_same Suc.prems split: prod.split)
qed

lemma rotate_right_loop_msb_eq:
  "rotate_right_loop_msb e (x AND 0x01) i s out = rotate_right_loop e (x AND 0x01) i s out"
proof (induction "nat (e - i)" arbitrary: i s out x)
  case 0
  then have "\<not> i < e" by simp
  then show ?case
    by (simp add: rotate_right_loop.simps [of e _ i] rotate_right_loop_msb.simps [of e _ i])
next
  case (Suc k)
  then have lt: "i < e" by simp
  have k: "k = nat (e - (i + 1))" using Suc.hyps(2) by simp
  note ih = Suc.hyps(1) [OF k]
  show ?case
    by (subst rotate_right_loop.simps, subst rotate_right_loop_msb.simps)
      (simp add: lt Let_def ih mask_right_same split: prod.split)
qed

lemma rotate_left_loop_msb_masks:
  "rotate_left_loop_msb e (x AND 0x80) i s out = rotate_left_loop e (x AND 0xA0) i s out"
  by (rule rotate_left_loop_msb_eq) (simp only: mask_left_same)

section \<open>Strings and the instruction\<close>

text \<open>\<^verbatim>\<open>strncmp\<close> is 0 exactly when the strings agree on their first \<open>n\<close> characters.\<close>

lemma of_char_zero_iff: "(of_char c :: nat) = 0 \<longleftrightarrow> c = CHR 0x00"
proof -
  have "(of_char c :: nat) = of_char (CHR 0x00) \<longleftrightarrow> c = CHR 0x00"
    by (rule of_char_eq_iff)
  then show ?thesis by simp
qed

lemma strncmp_chars_zero_iff:
  "CHR 0x00 \<notin> set a \<Longrightarrow> CHR 0x00 \<notin> set b \<Longrightarrow>
     strncmp_chars a b n = 0 \<longleftrightarrow> take n a = take n b"
proof (induction a b n rule: strncmp_chars.induct)
  case (3 y ys n)
  then have "y \<noteq> CHR 0x00" by auto
  then show ?case by (simp add: of_char_zero_iff)
next
  case (4 x xs n)
  then have "x \<noteq> CHR 0x00" by auto
  then show ?case by (simp add: of_char_zero_iff)
next
  case (5 x xs y ys n)
  have "int (of_char x) - int (of_char y) = 0 \<longleftrightarrow> x = y"
    by (simp add: of_char_eq_iff)
  with 5 show ?case by auto
qed simp_all

lemma no_NUL_c_str: "CHR 0x00 \<notin> set (c_str s)"
  by (auto simp: c_str_def dest: set_takeWhileD)

lemma strncmp_zero_iff: "strncmp a b n = 0 \<longleftrightarrow> take n (c_str a) = take n (c_str b)"
  by (simp add: strncmp_def strncmp_chars_zero_iff no_NUL_c_str)

lemma c_str_left [simp]: "c_str ''left'' = ''left''"
  by (simp add: c_str_def)

lemma c_str_right [simp]: "c_str ''right'' = ''right''"
  by (simp add: c_str_def)

text \<open>
  \<^verbatim>\<open>parse_instruction\<close> by the length and the first characters of the token: \<^verbatim>\<open>RIGHT\<close>
  for \<^verbatim>\<open>right\<close> only, \<^verbatim>\<open>LEFT\<close> for \<^verbatim>\<open>left\<close> and for \<^verbatim>\<open>left\<close> followed by one character.
\<close>

lemma parse_instruction_cases:
  "parse_instruction s =
     (if 5 < length (c_str s) then (None, ''ERROR: The instruction is too long'' # print_help)
      else if take 4 (c_str s) = ''left'' then (Some LEFT, [])
      else if c_str s = ''right'' then (Some RIGHT, [])
      else (None, ''ERROR: The instruction is invalid'' # print_help))"
proof -
  have l: "strncmp ''left'' s 4 = 0 \<longleftrightarrow> take 4 (c_str s) = ''left''"
    by (auto simp: strncmp_zero_iff)
  have r: "strncmp ''right'' s 5 = 0 \<longleftrightarrow> take 5 (c_str s) = ''right''"
    by (auto simp: strncmp_zero_iff)
  have t4: "4 \<le> length (c_str s)" if "take 4 (c_str s) = ''left''"
  proof -
    from that have "length (take 4 (c_str s)) = 4" by simp
    then show ?thesis by simp
  qed
  have t5: "take 5 (c_str s) = ''right'' \<longleftrightarrow> c_str s = ''right''" if "\<not> 5 < length (c_str s)"
  proof
    assume e: "take 5 (c_str s) = ''right''"
    then have "length (take 5 (c_str s)) = 5" by simp
    with that have "length (c_str s) = 5" by simp
    with e show "c_str s = ''right''" by simp
  qed simp
  have n6: "5 < strnlen s (5 + 1) \<longleftrightarrow> 5 < length (c_str s)"
    by (auto simp: strnlen_def)
  have n4: "strnlen s 4 = 4 \<longleftrightarrow> 4 \<le> length (c_str s)"
    by (auto simp: strnlen_def)
  have n5: "strnlen s 5 = 5 \<longleftrightarrow> 5 \<le> length (c_str s)"
    by (auto simp: strnlen_def)
  have len: "length ''left'' = 4" "length ''right'' = 5" "max (4::nat) 5 = 5" by simp_all
  show ?thesis
    unfolding parse_instruction_def Let_def len n6 n4 n5 l r
    using t4 t5 by auto
qed

lemma fst_parse_instruction_RIGHT:
  "fst (parse_instruction s) = Some RIGHT \<longleftrightarrow> c_str s = ''right''"
  by (auto simp: parse_instruction_cases)

lemma fst_parse_instruction_LEFT:
  "fst (parse_instruction s) = Some LEFT \<longleftrightarrow>
     (c_str s = ''left'' \<or> (\<exists>c. c \<noteq> CHR 0x00 \<and> c_str s = ''left'' @ [c]))"
proof -
  have "take 4 t = ''left'' \<and> length t \<le> 5 \<longleftrightarrow> (t = ''left'' \<or> (\<exists>c. t = ''left'' @ [c]))" for t :: string
  proof
    assume a: "take 4 t = ''left'' \<and> length t \<le> 5"
    then have "length (take 4 t) = 4" by simp
    then have "4 \<le> length t" by simp
    with a have "length t = 4 \<or> length t = 5" by auto
    then show "t = ''left'' \<or> (\<exists>c. t = ''left'' @ [c])"
    proof
      assume "length t = 4" with a show ?thesis by simp
    next
      assume l5: "length t = 5"
      have "t = take 4 t @ drop 4 t" by simp
      moreover from l5 have "length (drop 4 t) = 1" by simp
      then obtain c where "drop 4 t = [c]" by (cases "drop 4 t") auto
      ultimately have "t = ''left'' @ [c]" using a by simp
      then show ?thesis by blast
    qed
  qed auto
  from this [of "c_str s"] have e: "take 4 (c_str s) = ''left'' \<and> \<not> 5 < length (c_str s) \<longleftrightarrow>
     (c_str s = ''left'' \<or> (\<exists>c. c_str s = ''left'' @ [c]))" by (simp add: not_less)
  have nn: "c \<noteq> CHR 0x00" if "c_str s = ''left'' @ [c]" for c
    using no_NUL_c_str [of s] that by auto
  have "fst (parse_instruction s) = Some LEFT \<longleftrightarrow> take 4 (c_str s) = ''left'' \<and> \<not> 5 < length (c_str s)"
    by (auto simp: parse_instruction_cases)
  with e nn show ?thesis by blast
qed

lemma same_path_iff: "same_path a b \<longleftrightarrow> take PATH_MAX (c_str a) = take PATH_MAX (c_str b)"
  by (simp add: same_path_def strncmp_zero_iff)

section \<open>Runs of main\<close>

text \<open>A stream that has just been opened is not at \<^verbatim>\<open>eof\<close>, whatever the file holds.\<close>

lemma not_eof_ifstream_open: "\<not> eof (ifstream_open b)"
  by (simp add: eof_def ifstream_open_def)

lemma snd_parse_instruction_Some:
  "fst (parse_instruction tok) = Some d \<Longrightarrow> parse_instruction tok = (Some d, [])"
  by (auto simp: parse_instruction_cases split: if_splits)

text \<open>
  The ways through \<^verbatim>\<open>main\<close>: a refused token and a refused pair of paths end the run
  before any file is touched; otherwise, once both files are open, \<^verbatim>\<open>rotate\<close> is called,
  and within the range of the counter the run succeeds with the rotation in the output file.
\<close>

lemma main_bad_instruction:
  assumes "fst (parse_instruction tok) = None"
  shows "main fs [prog, tok, a, b] =
    Inr \<lparr>exit_code = EXIT_FAILURE,
         cerr = snd (parse_instruction tok) @ [''ERROR: Rotation instruction could not be parsed''],
         files = fs, rotate_called = False\<rparr>"
  using assms by (cases "parse_instruction tok") (simp add: main_def)

lemma main_same_path:
  assumes "fst (parse_instruction tok) = Some d" and "same_path a b"
  shows "main fs [prog, tok, a, b] =
    Inr \<lparr>exit_code = EXIT_FAILURE,
         cerr = [''ERROR: There is no support to reading and writing to the same file''],
         files = fs, rotate_called = False\<rparr>"
  using assms(2) snd_parse_instruction_Some [OF assms(1)] by (simp add: main_def)

lemma main_not_same_path:
  assumes "fst (parse_instruction tok) = Some d" and "\<not> same_path a b"
    and "main fs [prog, tok, a, b] = Inr r"
  shows "''ERROR: There is no support to reading and writing to the same file'' \<notin> set (cerr r)"
  using assms(2,3) snd_parse_instruction_Some [OF assms(1)]
  by (auto simp: main_def print_help_def Let_def split: option.splits sum.splits if_splits prod.splits)

lemma main_runs_rotate:
  assumes p: "fst (parse_instruction tok) = Some d" and ns: "\<not> same_path a b"
    and oi: "open_input fs (c_str a) = Some fin"
    and oo: "open_output fs (c_str b) = Some (fout, fs1)"
    and le: "int (length (contents fs1 fin)) \<le> INT_MAX"
  shows "main fs [prog, tok, a, b] =
    Inr \<lparr>exit_code = EXIT_SUCCESS, cerr = [],
         files = fs1\<lparr>contents := (contents fs1)(fout := rot_list d (contents fs1 fin))\<rparr>,
         rotate_called = True\<rparr>"
proof -
  have "rotate_bytes (contents fs1 fin) d = Inr (rot_list d (contents fs1 fin))"
    using le by (simp add: rotate_bytes_eq)
  then obtain s where r: "rotate (ifstream_open (contents fs1 fin)) [] d = Inr (s, rot_list d (contents fs1 fin))"
    by (cases "rotate (ifstream_open (contents fs1 fin)) [] d") (auto simp: rotate_bytes_def)
  show ?thesis
    using ns oi oo r snd_parse_instruction_Some [OF p]
    by (auto simp add: main_def Let_def not_eof_ifstream_open)
qed


lemma open_output_truncates:
  "open_output fs p = Some (fout, fs1) \<Longrightarrow> contents fs1 fout = []"
  by (auto simp: open_output_def split: option.splits if_splits)

section \<open>The rotation of a file\<close>

text \<open>
  What \<^verbatim>\<open>rotate\<close> writes for a file that the \<^verbatim>\<open>int\<close> counter can index, and what happens
  beyond: with more than \<^verbatim>\<open>INT_MAX\<close> bytes the counter overflows before the loop ends.
\<close>

lemma rotate_bytes_overflow:
  "INT_MAX < int (length b) \<Longrightarrow> rotate_bytes b d = Inl Signed_overflow"
  by (simp add: rotate_bytes_eq)

lemma length_two_gib_file: "int (length two_gib_file) = INT_MAX + 1"
  by (simp add: two_gib_file_def INT_MAX_def)

text \<open>The specification's small examples, run on the code.\<close>

lemma rotate_left_one_byte: "rotate_bytes [0x81] LEFT = Inr [0x03]"
  by code_simp

lemma rotate_right_one_byte: "rotate_bytes [0x81] RIGHT = Inr [0xC0]"
  by code_simp

lemma rotate_left_two_bytes: "rotate_bytes [0x80, 0x01] LEFT = Inr [0x00, 0x03]"
  by code_simp

text \<open>
  On the bits of the file, up to \<^verbatim>\<open>INT_MAX\<close> bytes: after a left rotation bit \<open>k\<close> is the
  input's bit \<open>k + 1\<close>, and after a right rotation it is the input's bit \<open>k - 1\<close>, both
  modulo the number of bits.
\<close>

lemma rotate_left_bits:
  assumes "int (length b) \<le> INT_MAX" and "k < 8 * length b"
  shows "\<exists>out. rotate_bytes b LEFT = Inr out
           \<and> stream_bit out k = stream_bit b (Suc k mod (8 * length b))"
  using assms by (simp add: rotate_bytes_eq rot_list_def stream_bit_rotl_list)

lemma rotate_right_bits:
  assumes "int (length b) \<le> INT_MAX" and "k < 8 * length b"
  shows "\<exists>out. rotate_bytes b RIGHT = Inr out
           \<and> stream_bit out k = stream_bit b ((k + 8 * length b - 1) mod (8 * length b))"
  using assms by (simp add: rotate_bytes_eq rot_list_def stream_bit_rotr_list)

subsection \<open>Left rotation\<close>

text \<open>
  For a file of 1 to \<^verbatim>\<open>INT_MAX\<close> bytes the left branch writes, at every index, the byte of
  the specification's reference formula, the last byte taking its low bit from byte 0.
\<close>

lemma rotate_left_formula:
  assumes "1 \<le> length b" and "int (length b) \<le> INT_MAX"
  shows "\<exists>out. rotate_bytes b LEFT = Inr out \<and> length out = length b
           \<and> (\<forall>i<length b. out ! i = spec_left_byte b i)"
  using assms(2) by (simp add: rotate_bytes_eq rot_list_def rotl_list_nth_spec)

text \<open>
  C1 claims the reference formula for every byte sequence of length at least 1. At a file
  of \<open>2^31\<close> bytes the left branch does not get there: in the iteration with
  \<open>i = INT_MAX\<close> the test \<^verbatim>\<open>i+1 < end_position\<close> overflows the \<^verbatim>\<open>int\<close> counter, and the
  run has no defined output.
\<close>

theorem rotate_left_overflows_at_two_gib:
  "rotate_bytes two_gib_file LEFT = Inl Signed_overflow"
  by (simp add: rotate_bytes_eq length_two_gib_file)

subsection \<open>Right rotation\<close>

text \<open>
  For a file of 1 to \<^verbatim>\<open>INT_MAX\<close> bytes the right branch writes, at every index, the byte
  of the specification's reference formula, byte 0 taking its high bit from the last byte.
\<close>

lemma rotate_right_formula:
  assumes "1 \<le> length b" and "int (length b) \<le> INT_MAX"
  shows "\<exists>out. rotate_bytes b RIGHT = Inr out \<and> length out = length b
           \<and> (\<forall>i<length b. out ! i = spec_right_byte b i)"
  using assms(2) by (simp add: rotate_bytes_eq rot_list_def rotr_list_nth_spec)

text \<open>
  C2 claims the reference formula for every byte sequence of length at least 1. At a file
  of \<open>2^31\<close> bytes the right branch reaches \<^verbatim>\<open>++i\<close> with \<open>i = INT_MAX\<close>: the counter
  overflows and the run has no defined output.
\<close>

theorem rotate_right_overflows_at_two_gib:
  "rotate_bytes two_gib_file RIGHT = Inl Signed_overflow"
  by (simp add: rotate_bytes_eq length_two_gib_file)

subsection \<open>Length\<close>

text \<open>Up to \<^verbatim>\<open>INT_MAX\<close> bytes, the empty file included, the output is as long as the input.\<close>

lemma rotate_length:
  "int (length b) \<le> INT_MAX \<Longrightarrow>
     \<exists>out. rotate_bytes b d = Inr out \<and> length out = length b"
  by (simp add: rotate_bytes_eq)

text \<open>
  C3 claims an output of the input's length for every byte sequence and both directions.
  For the file of \<open>2^31\<close> bytes neither direction yields an output at all.
\<close>

theorem rotate_two_gib_no_output:
  "rotate_bytes two_gib_file d \<noteq> Inr out"
  by (simp add: rotate_bytes_eq length_two_gib_file)

subsection \<open>Opposite rotations\<close>

text \<open>
  Up to \<^verbatim>\<open>INT_MAX\<close> bytes, rotating left and then right gives the input back, and so does
  rotating right and then left.
\<close>

lemma rotate_inverse:
  "int (length b) \<le> INT_MAX \<Longrightarrow>
     then_rotate (rotate_bytes b LEFT) RIGHT = Inr b
     \<and> then_rotate (rotate_bytes b RIGHT) LEFT = Inr b"
  by (simp add: rotate_bytes_eq then_rotate_def rot_list_def rotr_rotl_list rotl_rotr_list)

text \<open>
  C4 claims that the two rotations undo each other on every non-empty byte sequence. For
  the file of \<open>2^31\<close> bytes the first rotation already overflows, in either order, and
  the input does not come back.
\<close>

theorem rotate_inverse_fails_at_two_gib:
  "then_rotate (rotate_bytes two_gib_file LEFT) RIGHT \<noteq> Inr two_gib_file
   \<and> then_rotate (rotate_bytes two_gib_file RIGHT) LEFT \<noteq> Inr two_gib_file"
  by (simp add: rotate_bytes_eq length_two_gib_file then_rotate_def)

subsection \<open>A worked example\<close>

text \<open>
  C5, as the specification states it: right rotation of \<open>[0b00000001, 0b10000000]\<close> gives
  \<open>[0b10000000, 0b11000000]\<close>. The code does not produce that: the last bit of the input
  is 0, so the first output byte starts with 0.
\<close>

theorem rotate_right_two_bytes_not_spec:
  "rotate_bytes [0x01, 0x80] RIGHT \<noteq> Inr [0x80, 0xC0]"
  by code_simp

text \<open>
  C5, amended: right rotation of the two bytes \<open>[0b00000001, 0b10000000]\<close> gives exactly
  \<open>[0b00000000, 0b11000000]\<close>, the sixteen bits moved one place towards the end with the
  last bit (a 0) in front.
\<close>

theorem rotate_right_two_bytes:
  "rotate_bytes [0x01, 0x80] RIGHT = Inr [0x00, 0xC0]"
  by code_simp

section \<open>The direction token\<close>

text \<open>
  C6 claims that every token other than exactly \<^verbatim>\<open>left\<close> and \<^verbatim>\<open>right\<close> is refused and
  makes the program exit with a nonzero code. The five-character token \<^verbatim>\<open>lefty\<close> is
  accepted as \<^verbatim>\<open>LEFT\<close>: it is not longer than \<^verbatim>\<open>right\<close>, \<^verbatim>\<open>strnlen\<close> bounded by 4 gives 4,
  and its first four characters are \<^verbatim>\<open>left\<close>. The program then runs and succeeds.
\<close>

theorem parse_instruction_accepts_lefty:
  "parse_instruction ''lefty'' = (Some LEFT, [])
   \<and> map_sum id exit_code (main empty_input_fs [''rotate'', ''lefty'', ''in'', ''out''])
       = Inr EXIT_SUCCESS"
  by code_simp

section \<open>The empty file\<close>

text \<open>The rotation of no bytes is no bytes, in both directions.\<close>

lemma rotate_bytes_empty: "rotate_bytes [] d = Inr []"
  by (simp add: rotate_bytes_eq rot_list_def rotl_list_def rotr_list_def INT_MAX_def
      split: Instruction.split)

text \<open>
  C7 claims that on an empty input the program writes an empty output and succeeds without
  invoking the rotation. The output is empty and the exit code is 0, but the test
  \<^verbatim>\<open>input.eof()\<close> of line 195 is false on a stream from which nothing has been read, so
  the run goes through the call of \<^verbatim>\<open>rotate\<close>, for \<^verbatim>\<open>left\<close> and for \<^verbatim>\<open>right\<close>.
\<close>

theorem main_empty_input_calls_rotate:
  "map_sum id (\<lambda>r. (exit_code r, cerr r, contents (files r) 1, rotate_called r))
     (main empty_input_fs [''rotate'', ''left'', ''in'', ''out''])
     = Inr (EXIT_SUCCESS, [], [], True)
   \<and> map_sum id (\<lambda>r. (exit_code r, cerr r, contents (files r) 1, rotate_called r))
     (main empty_input_fs [''rotate'', ''right'', ''in'', ''out''])
     = Inr (EXIT_SUCCESS, [], [], True)"
  by code_simp

section \<open>The mask 0xA0\<close>

text \<open>
  The code, with the mask \<^verbatim>\<open>0xA0\<close> on the lookahead byte and on the shifted carry bit,
  computes the same function as the variant with \<^verbatim>\<open>0x80\<close>, on every input stream, output
  stream and direction. Bit 5 of the masked lookahead byte does not survive
  \<^verbatim>\<open>0x01 & rotr(., 7)\<close>, and bit 5 of \<^verbatim>\<open>rotl(saved_bit, 7)\<close> is never set, \<^verbatim>\<open>saved_bit\<close>
  being a byte masked with \<^verbatim>\<open>0x01\<close>.
\<close>

lemma rotate_msb_eq: "rotate_msb input output instruction = rotate input output instruction"
  unfolding rotate_msb_def rotate_def
  by (simp add: Let_def rotate_right_loop_msb_eq rotate_left_loop_msb_masks
      split: prod.split Instruction.split)

lemma rotate_bytes_msb_eq: "rotate_bytes_msb b d = rotate_bytes b d"
  by (simp add: rotate_bytes_msb_def rotate_bytes_def rotate_msb_eq)

text \<open>The closed forms are the lists of the specification's reference bytes.\<close>

lemma rotl_list_spec: "rotl_list b = map (spec_left_byte b) [0..<length b]"
  by (rule nth_equalityI) (simp_all add: rotl_list_nth_spec)

lemma rotr_list_spec: "rotr_list b = map (spec_right_byte b) [0..<length b]"
  by (rule nth_equalityI) (simp_all add: rotr_list_nth_spec)

text \<open>
  C8 claims that the code with \<^verbatim>\<open>0xA0\<close> and the variant with \<^verbatim>\<open>0x80\<close> compute the same
  output on every input, so that both implement the stated one-bit rotation. The two do
  agree on every input, and on a file of up to \<^verbatim>\<open>INT_MAX\<close> bytes both write the reference
  bytes of the specification, in either direction. On the file of \<open>2^31\<close> bytes neither
  implements the rotation: both share the \<^verbatim>\<open>int\<close> counter, and both runs end in its overflow.
\<close>

theorem masks_agree_and_overflow_at_two_gib:
  "rotate_msb input output instruction = rotate input output instruction
   \<and> (int (length b) \<le> INT_MAX \<longrightarrow>
          rotate_bytes b LEFT = Inr (map (spec_left_byte b) [0..<length b])
        \<and> rotate_bytes_msb b LEFT = Inr (map (spec_left_byte b) [0..<length b])
        \<and> rotate_bytes b RIGHT = Inr (map (spec_right_byte b) [0..<length b])
        \<and> rotate_bytes_msb b RIGHT = Inr (map (spec_right_byte b) [0..<length b]))
   \<and> rotate_bytes two_gib_file d = Inl Signed_overflow
   \<and> rotate_bytes_msb two_gib_file d = Inl Signed_overflow"
proof (intro conjI impI)
  show "rotate_msb input output instruction = rotate input output instruction"
    by (rule rotate_msb_eq)
next
  assume le: "int (length b) \<le> INT_MAX"
  then show "rotate_bytes b LEFT = Inr (map (spec_left_byte b) [0..<length b])"
    by (simp add: rotate_bytes_eq rot_list_def rotl_list_spec)
  from le show "rotate_bytes_msb b LEFT = Inr (map (spec_left_byte b) [0..<length b])"
    by (simp add: rotate_bytes_msb_eq rotate_bytes_eq rot_list_def rotl_list_spec)
  from le show "rotate_bytes b RIGHT = Inr (map (spec_right_byte b) [0..<length b])"
    by (simp add: rotate_bytes_eq rot_list_def rotr_list_spec)
  from le show "rotate_bytes_msb b RIGHT = Inr (map (spec_right_byte b) [0..<length b])"
    by (simp add: rotate_bytes_msb_eq rotate_bytes_eq rot_list_def rotr_list_spec)
next
  show "rotate_bytes two_gib_file d = Inl Signed_overflow"
    by (simp add: rotate_bytes_eq length_two_gib_file)
  then show "rotate_bytes_msb two_gib_file d = Inl Signed_overflow"
    by (simp add: rotate_bytes_msb_eq)
qed

text \<open>
  In range, on the two bytes \<open>[0b10000000, 0b00000001]\<close>: both versions write
  \<open>[0b00000000, 0b00000011]\<close> to the left and \<open>[0b11000000, 0b00000000]\<close> to the right.
\<close>

theorem masks_agree_and_overflow_at_two_gib_witness:
  "int (length [0x80, 0x01 :: byte]) \<le> INT_MAX
   \<and> rotate_bytes [0x80, 0x01] LEFT = Inr [0x00, 0x03]
   \<and> rotate_bytes_msb [0x80, 0x01] LEFT = Inr [0x00, 0x03]
   \<and> rotate_bytes [0x80, 0x01] RIGHT = Inr [0xC0, 0x00]
   \<and> rotate_bytes_msb [0x80, 0x01] RIGHT = Inr [0xC0, 0x00]"
proof -
  have le: "int (length [0x80, 0x01 :: byte]) \<le> INT_MAX"
    by (simp add: INT_MAX_def)
  have l: "map (spec_left_byte [0x80, 0x01]) [0..<length [0x80, 0x01 :: byte]] = [0x00, 0x03]"
    by code_simp
  have r: "map (spec_right_byte [0x80, 0x01]) [0..<length [0x80, 0x01 :: byte]] = [0xC0, 0x00]"
    by code_simp
  from masks_agree_and_overflow_at_two_gib [of _ _ _ "[0x80, 0x01]"] le
  have "rotate_bytes [0x80, 0x01] LEFT
          = Inr (map (spec_left_byte [0x80, 0x01]) [0..<length [0x80, 0x01 :: byte]])
      \<and> rotate_bytes_msb [0x80, 0x01] LEFT
          = Inr (map (spec_left_byte [0x80, 0x01]) [0..<length [0x80, 0x01 :: byte]])
      \<and> rotate_bytes [0x80, 0x01] RIGHT
          = Inr (map (spec_right_byte [0x80, 0x01]) [0..<length [0x80, 0x01 :: byte]])
      \<and> rotate_bytes_msb [0x80, 0x01] RIGHT
          = Inr (map (spec_right_byte [0x80, 0x01]) [0..<length [0x80, 0x01 :: byte]])"
    by blast
  with le show ?thesis unfolding l r by blast
qed

section \<open>The full cycle\<close>

text \<open>
  Up to \<^verbatim>\<open>INT_MAX\<close> bytes, \<open>8 * length b\<close> rotations in one direction give the input back.
\<close>

lemma rotate_full_cycle:
  "int (length b) \<le> INT_MAX \<Longrightarrow> rotate_times (8 * length b) d b = Inr b"
  by (simp add: rotate_times_eq rot_list_full_cycle)

text \<open>
  C9 claims the full cycle for every byte sequence and either direction. For the file of
  \<open>2^31\<close> bytes the first of the \<open>8 * 2^31\<close> rotations overflows the counter, and the
  sequence of runs ends there.
\<close>

theorem rotate_full_cycle_fails_at_two_gib:
  "rotate_times (8 * length two_gib_file) d two_gib_file = Inl Signed_overflow"
proof -
  have "8 * length two_gib_file \<noteq> 0" by (simp add: two_gib_file_def)
  then show ?thesis by (simp add: rotate_times_eq length_two_gib_file)
qed

section \<open>The same-file guard\<close>

text \<open>
  C10: once the direction is accepted, the program stops with a nonzero exit code and the
  same-file message exactly when the two path arguments agree as strings on their first
  \<^verbatim>\<open>PATH_MAX\<close> characters, whatever the files are. So two different spellings of one
  file pass the guard: the program opens the file for writing, which empties it, rotates
  the now empty input, and succeeds.
\<close>

theorem same_path_rejection:
  assumes "fst (parse_instruction tok) = Some d"
  shows "((\<exists>r. main fs [prog, tok, a, b] = Inr r \<and> exit_code r \<noteq> 0
             \<and> ''ERROR: There is no support to reading and writing to the same file''
                 \<in> set (cerr r))
          \<longleftrightarrow> take PATH_MAX (c_str a) = take PATH_MAX (c_str b))
       \<and> (take PATH_MAX (c_str a) \<noteq> take PATH_MAX (c_str b)
            \<and> lookup fs (c_str a) = Some f \<and> lookup fs (c_str b) = Some f
            \<and> readable fs f \<and> writable fs f
          \<longrightarrow> (\<exists>r. main fs [prog, tok, a, b] = Inr r \<and> exit_code r = EXIT_SUCCESS
                   \<and> rotate_called r \<and> contents (files r) f = []))"
proof (intro conjI impI iffI)
  assume "\<exists>r. main fs [prog, tok, a, b] = Inr r \<and> exit_code r \<noteq> 0
             \<and> ''ERROR: There is no support to reading and writing to the same file''
                 \<in> set (cerr r)"
  then have "same_path a b"
    using main_not_same_path [OF assms, of a b fs prog] by blast
  then show "take PATH_MAX (c_str a) = take PATH_MAX (c_str b)"
    by (simp add: same_path_iff)
next
  assume "take PATH_MAX (c_str a) = take PATH_MAX (c_str b)"
  then have "same_path a b" by (simp add: same_path_iff)
  from main_same_path [OF assms this, of fs prog]
  show "\<exists>r. main fs [prog, tok, a, b] = Inr r \<and> exit_code r \<noteq> 0
             \<and> ''ERROR: There is no support to reading and writing to the same file''
                 \<in> set (cerr r)"
    by (simp add: EXIT_FAILURE_def)
next
  assume h: "take PATH_MAX (c_str a) \<noteq> take PATH_MAX (c_str b)
            \<and> lookup fs (c_str a) = Some f \<and> lookup fs (c_str b) = Some f
            \<and> readable fs f \<and> writable fs f"
  then have ns: "\<not> same_path a b" by (simp add: same_path_iff)
  let ?fs1 = "fs\<lparr>contents := (contents fs)(f := [])\<rparr>"
  have oi: "open_input fs (c_str a) = Some f" using h by (simp add: open_input_def)
  have oo: "open_output fs (c_str b) = Some (f, ?fs1)" using h by (simp add: open_output_def)
  have le: "int (length (contents ?fs1 f)) \<le> INT_MAX" by (simp add: INT_MAX_def)
  from main_runs_rotate [OF assms ns oi oo le, of prog]
  show "\<exists>r. main fs [prog, tok, a, b] = Inr r \<and> exit_code r = EXIT_SUCCESS
                   \<and> rotate_called r \<and> contents (files r) f = []"
    by (cases d) (simp_all add: rot_list_def rotl_list_def rotr_list_def)
qed

text \<open>
  The guard at work on \<^verbatim>\<open>data\<close> and \<^verbatim>\<open>./data\<close>, two spellings of one file: the direction
  is accepted, the strings differ, and the run succeeds and leaves the file empty.
\<close>

theorem same_path_rejection_witness:
  "fst (parse_instruction ''left'') = Some LEFT
   \<and> take PATH_MAX (c_str ''data'') \<noteq> take PATH_MAX (c_str ''./data'')
   \<and> lookup alias_fs (c_str ''data'') = Some 0 \<and> lookup alias_fs (c_str ''./data'') = Some 0
   \<and> readable alias_fs 0 \<and> writable alias_fs 0
   \<and> (\<exists>r. main alias_fs [''rotate'', ''left'', ''data'', ''./data''] = Inr r
          \<and> exit_code r = EXIT_SUCCESS \<and> rotate_called r \<and> contents (files r) 0 = [])"
proof -
  have p: "fst (parse_instruction ''left'') = Some LEFT"
    by (simp add: parse_instruction_cases)
  have h: "take PATH_MAX (c_str ''data'') \<noteq> take PATH_MAX (c_str ''./data'')
      \<and> lookup alias_fs (c_str ''data'') = Some 0 \<and> lookup alias_fs (c_str ''./data'') = Some 0
      \<and> readable alias_fs 0 \<and> writable alias_fs 0"
    by (simp add: c_str_def PATH_MAX_def alias_fs_def)
  from same_path_rejection [OF p, of alias_fs "''rotate''" "''data''" "''./data''" 0] p h
  show ?thesis by blast
qed

end
